theory Spec2Isabelle
  imports Main
begin

section \<open>Document tree\<close>

text \<open>
  \<open>Archiver.ts\<close> imports the classes \<open>Block\<close>, \<open>RootBlock\<close> and \<open>Section\<close> from
  model/. The tree is an immutable value here, and every mutation in place of the source
  returns the changed tree. A character stands for one code unit of a string of the
  source.
\<close>

text \<open>
  Modelled from the spec: the class \<open>Block\<close> is missing. A Block has a text and an
  ordered list of child Blocks.
\<close>

datatype block = Block (blockText: string) (blockChildren: "block list")

text \<open>
  Modelled from the spec: the class \<open>RootBlock\<close> is missing. A RootBlock is the
  container, without text, of the blocks directly under a heading; \<open>new RootBlock()\<close>
  has no children.
\<close>

definition RootBlock :: block where
  "RootBlock = Block [] []"

text \<open>
  Modelled from the spec: the class \<open>Section\<close> is missing. A Section has a heading
  text, a \<open>tokenLevel\<close>, a \<open>blockContent\<close> (a RootBlock) and an ordered list of child
  Sections. The constructor takes the text, the level and the block content.
\<close>

datatype "section" =
  Section (sectionText: string) (tokenLevel: int) (blockContent: block)
    (sectionChildren: "section list")

text \<open>
  Modelled from the spec: \<open>Section.appendChild\<close> is missing. A new child Section is
  appended after the existing children.
\<close>

fun appendChild :: "section \<Rightarrow> section \<Rightarrow> section" where
  "appendChild (Section t l bc cs) c = Section t l bc (cs @ [c])"

text \<open>The \<open>tokenLevel\<close> of every Section of a sub-tree, shifted by \<open>d\<close>.\<close>

fun shiftTokenLevels :: "int \<Rightarrow> section \<Rightarrow> section" where
  "shiftTokenLevels d (Section t l bc cs) = Section t (l + d) bc (map (shiftTokenLevels d) cs)"

text \<open>
  Modelled from the spec: \<open>Section.recalculateTokenLevels\<close> is missing. The
  \<open>tokenLevel\<close> of an entire moved sub-tree is shifted by one delta, the difference
  between the new level of its top and the old one.
\<close>

definition recalculateTokenLevels :: "section \<Rightarrow> int \<Rightarrow> section" where
  "recalculateTokenLevels s newLevel = shiftTokenLevels (newLevel - tokenLevel s) s"

text \<open>
  A reference to a Section inside a tree is the list of child indices that leads to it
  from the root. \<open>sectionAt\<close> reads the Section a reference points to and
  \<open>updateAt\<close> changes it in place.
\<close>

fun sectionAt :: "section \<Rightarrow> nat list \<Rightarrow> section option" where
  "sectionAt s [] = Some s"
| "sectionAt s (i # p) =
     (if i < length (sectionChildren s) then sectionAt (sectionChildren s ! i) p else None)"

fun updateAt :: "nat list \<Rightarrow> (section \<Rightarrow> section) \<Rightarrow> section \<Rightarrow> section" where
  "updateAt [] f s = f s"
| "updateAt (i # p) f (Section t l bc cs) =
     (if i < length cs then Section t l bc (cs[i := updateAt p f (cs ! i)])
      else Section t l bc cs)"

text \<open>
  Modelled from the spec: \<open>findSectionRecursively\<close> (util/Util) is missing. The search
  is recursive and gives the first Section that the matcher accepts: a Section before its
  child Sections, the children from first to last.
\<close>

fun findSectionRecursively :: "section \<Rightarrow> (section \<Rightarrow> bool) \<Rightarrow> nat list option"
  and findInChildren :: "section list \<Rightarrow> nat \<Rightarrow> (section \<Rightarrow> bool) \<Rightarrow> nat list option" where
  "findSectionRecursively (Section t l bc cs) matcher =
     (if matcher (Section t l bc cs) then Some [] else findInChildren cs 0 matcher)"
| "findInChildren [] i matcher = None"
| "findInChildren (c # cs) i matcher =
     (case findSectionRecursively c matcher of
        Some p \<Rightarrow> Some (i # p)
      | None \<Rightarrow> findInChildren cs (Suc i) matcher)"

text \<open>The matcher accepts the Section that a reference points to.\<close>

definition matchesAt :: "section \<Rightarrow> (section \<Rightarrow> bool) \<Rightarrow> nat list \<Rightarrow> bool" where
  "matchesAt root matcher p = (case sectionAt root p of None \<Rightarrow> False | Some s \<Rightarrow> matcher s)"

text \<open>
  The same for a reference into the list \<open>cs\<close> of children whose first index is
  \<open>i\<close>.
\<close>

definition matchesAtChild ::
    "section list \<Rightarrow> nat \<Rightarrow> (section \<Rightarrow> bool) \<Rightarrow> nat list \<Rightarrow> bool" where
  "matchesAtChild cs i m p =
     (case p of
        [] \<Rightarrow> False
      | k # q \<Rightarrow> i \<le> k \<and> k - i < length cs \<and> matchesAt (cs ! (k - i)) m q)"

text \<open>The references to all Sections of a tree, in the order of that search.\<close>

fun sectionPaths :: "section \<Rightarrow> nat list list"
  and childPaths :: "section list \<Rightarrow> nat \<Rightarrow> nat list list" where
  "sectionPaths (Section t l bc cs) = [] # childPaths cs 0"
| "childPaths [] i = []"
| "childPaths (c # cs) i = map ((#) i) (sectionPaths c) @ childPaths cs (Suc i)"

section \<open>Tree extraction\<close>

type_synonym blockFilter = "block \<Rightarrow> bool"

type_synonym sectionFilter = "section \<Rightarrow> bool"

record treeFilter =
  blockFilter :: blockFilter
  sectionFilter :: sectionFilter

text \<open>
  A \<open>BlockExtractor\<close> takes a root Block and a filter and returns the extracted Blocks;
  it removes them from the root, which the model returns as second component.
\<close>

type_synonym blockExtractor = "block \<Rightarrow> blockFilter \<Rightarrow> block list \<times> block"

text \<open>
  Modelled from the spec: \<open>shallowExtractBlocks\<close> (util/Util) is missing. Only the
  top-level blocks are inspected; a matching block is extracted with all its children as
  one unit.
\<close>

fun shallowExtractBlocks :: blockExtractor where
  "shallowExtractBlocks (Block t cs) f = (filter f cs, Block t (filter (\<lambda>b. \<not> f b) cs))"

text \<open>
  Modelled from the spec: \<open>deepExtractBlocks\<close> (util/Util) is missing. Every block at
  every nesting depth is tested on its own, in document order; a matching block leaves
  its owner, a block that does not match keeps its children that do not match.
\<close>

fun deepExtractBlocks :: blockExtractor
  and deepExtractList :: "block list \<Rightarrow> blockFilter \<Rightarrow> block list \<times> block list" where
  "deepExtractBlocks (Block t cs) f =
     (case deepExtractList cs f of (extracted, cs') \<Rightarrow> (extracted, Block t cs'))"
| "deepExtractList [] f = ([], [])"
| "deepExtractList (c # cs) f =
     (case deepExtractBlocks c f of (inner, c') \<Rightarrow>
        (case deepExtractList cs f of (later, cs') \<Rightarrow>
           (if f c then (c' # inner @ later, cs') else (inner @ later, c' # cs'))))"

text \<open>
  Modelled from the spec: \<open>extractBlocksRecursively\<close> (util/Util) is missing. The
  extractor runs on the block content of every Section that the section filter accepts,
  a Section's own blocks before those of its child Sections; a Section that the filter
  rejects is left as it is.
\<close>

fun extractBlocksRecursively ::
    "section \<Rightarrow> treeFilter \<Rightarrow> blockExtractor \<Rightarrow> block list \<times> section"
  and extractFromChildren ::
    "section list \<Rightarrow> treeFilter \<Rightarrow> blockExtractor \<Rightarrow> block list \<times> section list" where
  "extractBlocksRecursively (Section t l bc cs) flt extractor =
     (if sectionFilter flt (Section t l bc cs) then
        (case extractor bc (blockFilter flt) of (own, bc') \<Rightarrow>
           (case extractFromChildren cs flt extractor of (nested, cs') \<Rightarrow>
              (own @ nested, Section t l bc' cs')))
      else ([], Section t l bc cs))"
| "extractFromChildren [] flt extractor = ([], [])"
| "extractFromChildren (c # cs) flt extractor =
     (case extractBlocksRecursively c flt extractor of (first, c') \<Rightarrow>
        (case extractFromChildren cs flt extractor of (later, cs') \<Rightarrow>
           (first @ later, c' # cs')))"

section \<open>Settings, rules and collaborators\<close>

record rule =
  statuses :: string
  defaultArchiveFileName :: string
  archiveToSeparateFile :: bool
  dateFormat :: string

record blockWithRule =
  task :: block
  rule :: rule

record additionalMetadataBeforeArchiving =
  dateFormat :: string

text \<open>
  The fields of \<open>Settings\<close> that \<open>Archiver.ts\<close> reads. The slice
  \<open>indentationSettings\<close> is only handed to \<open>buildIndentation\<close>, which takes the
  whole settings value here.
\<close>

record settings =
  archiveToSeparateFile :: bool
  defaultArchiveFileName :: string
  dateFormat :: string
  archiveUnderHeading :: bool
  archiveHeading :: string
  archiveHeadingDepth :: int
  addNewlinesAroundHeadings :: bool
  additionalMetadataBeforeArchiving :: additionalMetadataBeforeArchiving
  rules :: "rule list"

text \<open>
  What a call can fail with: the \<open>TypeError\<close> of the runtime (destructuring
  \<open>null\<close>, a property of \<open>undefined\<close>), the \<open>Error\<close> that \<open>getOrCreateFile\<close>
  throws, with its message, and the rejection of a promise of the storage.
\<close>

datatype error = TypeError | Error string | Rejected string

datatype abstractFile = TFile string | TFolder string

text \<open>
  The two implementations of \<open>ActiveFile\<close>: the file open in the editor, and a file of
  the vault, known by the path of its \<open>TFile\<close>.
\<close>

datatype activeFile = EditorFile | DiskFile string

type_synonym editorPosition = "nat \<times> nat"

type_synonym editorRange = "editorPosition \<times> editorPosition"

text \<open>
  An \<open>Archiver\<close> is built from its settings and its collaborators, which are
  parameters of the model as they are parameters of the constructor; \<open>'w\<close> is the state
  of the editor and of the vault. \<open>archiveHeadingPattern\<close> is the \<open>test\<close> of the
  regular expression of that name. The functions of util/ and of the editor that
  \<open>Archiver.ts\<close> imports and that the spec does not describe are parameters too
  (\<open>addNewlinesToSection\<close>, \<open>buildIndentation\<close>, \<open>detectListItemUnderCursor\<close>,
  \<open>detectHeadingUnderCursor\<close>). \<open>resolve\<close> reads the clock, which stands still during
  one operation. \<open>create\<close> makes the \<open>TFile\<close> of the path it is given.
\<close>

record 'w archiver =
  settings :: settings
  archiveHeadingPattern :: "string \<Rightarrow> bool"
  parse :: "string list \<Rightarrow> section"
  stringify :: "section \<Rightarrow> string \<Rightarrow> string list"
  buildIndentation :: "settings \<Rightarrow> string"
  doesTaskNeedArchiving :: "string \<Rightarrow> bool"
  resolve :: "string \<Rightarrow> string \<Rightarrow> string"
  replaceText :: "block \<Rightarrow> block"
  appendMetadata :: "blockWithRule \<Rightarrow> blockWithRule"
  mergeNewBlocksWithDateTree :: "block \<Rightarrow> block list \<Rightarrow> block"
  addNewlinesToSection :: "section \<Rightarrow> section"
  readLines :: "activeFile \<Rightarrow> 'w \<Rightarrow> error + string list"
  writeLines :: "activeFile \<Rightarrow> string list \<Rightarrow> 'w \<Rightarrow> error + 'w"
  getAbstractFileByPath :: "string \<Rightarrow> 'w \<Rightarrow> abstractFile option"
  createFolder :: "string \<Rightarrow> 'w \<Rightarrow> error + 'w"
  create :: "string \<Rightarrow> string \<Rightarrow> 'w \<Rightarrow> error + 'w"
  detectListItemUnderCursor :: "'w \<Rightarrow> editorRange option"
  detectHeadingUnderCursor :: "'w \<Rightarrow> editorRange option"
  getRange :: "editorRange \<Rightarrow> 'w \<Rightarrow> string"
  replaceRange :: "string \<Rightarrow> editorRange \<Rightarrow> 'w \<Rightarrow> 'w"
  setCursor :: "editorPosition \<Rightarrow> 'w \<Rightarrow> 'w"

section \<open>Strings\<close>

text \<open>\<open>s.split(sep)\<close> for a separator of one character.\<close>

fun splitString :: "char \<Rightarrow> string \<Rightarrow> string list" where
  "splitString sep [] = [[]]"
| "splitString sep (c # cs) =
     (if c = sep then [] # splitString sep cs
      else (case splitString sep cs of
              [] \<Rightarrow> [[c]]
            | w # ws \<Rightarrow> (c # w) # ws))"

text \<open>\<open>xs.join(sep)\<close>.\<close>

fun joinStrings :: "string \<Rightarrow> string list \<Rightarrow> string" where
  "joinStrings sep [] = []"
| "joinStrings sep [x] = x"
| "joinStrings sep (x # y # ys) = x @ sep @ joinStrings sep (y # ys)"


text \<open>\<open>pat\<close> stands in \<open>s\<close> at index \<open>i\<close>.\<close>

definition occursAt :: "string \<Rightarrow> string \<Rightarrow> nat \<Rightarrow> bool" where
  "occursAt pat s i = (take (length pat) (drop i s) = pat)"

text \<open>The decimal digits of a number, as a template literal prints it.\<close>

definition digitChar :: "nat \<Rightarrow> char" where
  "digitChar d = ''0123456789'' ! d"

function numberToString :: "nat \<Rightarrow> string" where
  "numberToString n =
     (if n < 10 then [digitChar n] else numberToString (n div 10) @ [digitChar (n mod 10)])"
  by pat_completeness auto
termination
  by (relation "measure id") auto

text \<open>
  The line terminators, which \<open>.\<close> does not match in a regular expression without
  flags. Of LF, CR, U+2028 and U+2029 the first two are characters of this model.
\<close>

definition isLineTerminator :: "char \<Rightarrow> bool" where
  "isLineTerminator c = (c = CHR 0x0A \<or> c = CHR 0x0D)"

text \<open>
  \<open>text.match(/\[(.)]/)\<close>: the leftmost place where an opening bracket, one character
  that is no line terminator and a closing bracket follow each other; the result is the
  character in the group, \<open>None\<close> stands for \<open>null\<close>.
\<close>

fun matchStatus :: "string \<Rightarrow> char option" where
  "matchStatus (a # b # c # cs) =
     (if a = CHR ''['' \<and> \<not> isLineTerminator b \<and> c = CHR '']'' then Some b
      else matchStatus (b # c # cs))"
| "matchStatus cs = None"

section \<open>Objects keyed by strings\<close>

text \<open>
  \<open>groupBy\<close> builds a plain object; \<open>mapValues\<close> and \<open>toPairs\<close> walk its own keys.
  An object is the list of its properties in the order of their creation. Its own keys
  come in the order of the language: the keys that are array indices (canonical decimal
  numbers below \<open>2^32 - 1\<close>) in ascending order, then the other keys in the order of
  their creation.
\<close>

definition digitsToNumber :: "string \<Rightarrow> nat" where
  "digitsToNumber k = foldl (\<lambda>n c. 10 * n + (of_char c - 48)) 0 k"

definition isArrayIndex :: "string \<Rightarrow> bool" where
  "isArrayIndex k =
     (k \<noteq> [] \<and> list_all (\<lambda>c. c \<in> set ''0123456789'') k \<and>
      (k = ''0'' \<or> hd k \<noteq> CHR ''0'') \<and> digitsToNumber k < 4294967295)"

definition ownProperties :: "(string \<times> 'a) list \<Rightarrow> (string \<times> 'a) list" where
  "ownProperties obj =
     sort_key (\<lambda>kv. digitsToNumber (fst kv)) (filter (\<lambda>kv. isArrayIndex (fst kv)) obj) @
     filter (\<lambda>kv. \<not> isArrayIndex (fst kv)) obj"

fun addToGroup :: "string \<Rightarrow> 'a \<Rightarrow> (string \<times> 'a list) list \<Rightarrow> (string \<times> 'a list) list" where
  "addToGroup k v [] = [(k, [v])]"
| "addToGroup k v ((k', vs) # obj) =
     (if k = k' then (k', vs @ [v]) # obj else (k', vs) # addToGroup k v obj)"

definition groupBy :: "('a \<Rightarrow> string) \<Rightarrow> 'a list \<Rightarrow> (string \<times> 'a list) list" where
  "groupBy key xs = foldl (\<lambda>obj x. addToGroup (key x) x obj) [] xs"

definition mapValues :: "('a \<Rightarrow> 'b) \<Rightarrow> (string \<times> 'a) list \<Rightarrow> (string \<times> 'b) list" where
  "mapValues f obj = map (\<lambda>kv. (fst kv, f (snd kv))) (ownProperties obj)"

definition toPairs :: "(string \<times> 'a) list \<Rightarrow> (string \<times> 'a) list" where
  "toPairs obj = ownProperties obj"

section \<open>Recognising the archive heading\<close>

text \<open>
  Modelled from the spec: \<open>buildHeadingPattern\<close> (util/Util), the default of the
  constructor's \<open>archiveHeadingPattern\<close>, is missing. The pattern built from a template
  matches every string produced from that template, whatever the date that was
  substituted; what is no date token passes through literally. \<open>Archiver.ts\<close> writes the
  template into the heading as it is, so the model is the pattern of a template without
  date tokens: it is tested as a regular expression is, and accepts a line in which the
  template is found.
\<close>

definition buildHeadingPattern :: "string \<Rightarrow> string \<Rightarrow> bool" where
  "buildHeadingPattern heading line = list_ex (occursAt heading line) [0..<Suc (length line)]"

section \<open>The Archiver\<close>

text \<open>
  A method that awaits the storage takes the state \<open>'w\<close> and returns the state it leaves
  with its result: \<open>Inl\<close> an error (the promise is rejected), \<open>Inr\<close> a value.
\<close>

definition isArchive :: "'w archiver \<Rightarrow> string \<Rightarrow> bool" where
  "isArchive a line = archiveHeadingPattern a line"

definition taskFilter :: "'w archiver \<Rightarrow> treeFilter" where
  "taskFilter a =
     \<lparr> blockFilter = (\<lambda>block. doesTaskNeedArchiving a (blockText block)),
       sectionFilter = (\<lambda>section. \<not> isArchive a (sectionText section)) \<rparr>"


definition getDefaultRule :: "'w archiver \<Rightarrow> rule" where
  "getDefaultRule a =
     \<lparr> statuses = [],
       rule.defaultArchiveFileName = settings.defaultArchiveFileName (settings a),
       rule.archiveToSeparateFile = settings.archiveToSeparateFile (settings a),
       rule.dateFormat =
         additionalMetadataBeforeArchiving.dateFormat
           (additionalMetadataBeforeArchiving (settings a)) \<rparr>"

text \<open>
  \<open>getTaskStatus\<close> destructures the result of \<open>match\<close>; destructuring \<open>null\<close> throws
  a \<open>TypeError\<close>.
\<close>

definition getTaskStatus :: "block \<Rightarrow> error + char" where
  "getTaskStatus t =
     (case matchStatus (blockText t) of
        None \<Rightarrow> Inl TypeError
      | Some taskStatus \<Rightarrow> Inr taskStatus)"

text \<open>
  \<open>rules.find((rule) => rule.statuses.includes(this.getTaskStatus(task)))\<close>: the
  callback runs once for each rule, up to the first rule it accepts.
\<close>

fun findRule :: "rule list \<Rightarrow> block \<Rightarrow> error + rule option" where
  "findRule [] t = Inr None"
| "findRule (r # rs) t =
     (case getTaskStatus t of
        Inl e \<Rightarrow> Inl e
      | Inr taskStatus \<Rightarrow>
          (if taskStatus \<in> set (statuses r) then Inr (Some r) else findRule rs t))"

definition taskWithRule :: "'w archiver \<Rightarrow> block \<Rightarrow> error + blockWithRule" where
  "taskWithRule a t =
     (case findRule (rules (settings a)) t of
        Inl e \<Rightarrow> Inl e
      | Inr None \<Rightarrow> Inr \<lparr> task = t, rule = getDefaultRule a \<rparr>
      | Inr (Some r) \<Rightarrow> Inr \<lparr> task = t, rule = r \<rparr>)"

text \<open>\<open>tasks.map\<close> with a callback that may throw.\<close>

fun tasksWithRules :: "'w archiver \<Rightarrow> block list \<Rightarrow> error + blockWithRule list" where
  "tasksWithRules a [] = Inr []"
| "tasksWithRules a (t # ts) =
     (case taskWithRule a t of
        Inl e \<Rightarrow> Inl e
      | Inr x \<Rightarrow> (case tasksWithRules a ts of Inl e \<Rightarrow> Inl e | Inr xs \<Rightarrow> Inr (x # xs)))"

definition stringifyTree :: "'w archiver \<Rightarrow> section \<Rightarrow> string list" where
  "stringifyTree a tree = stringify a tree (buildIndentation a (settings a))"

text \<open>
  The callback of \<open>editFileTree\<close> changes the tree it is given and, in the source, may
  assign a variable of its caller; here it returns the changed tree and that value.
\<close>

definition editFileTree ::
    "'w archiver \<Rightarrow> activeFile \<Rightarrow> (section \<Rightarrow> error + section \<times> 'r) \<Rightarrow> 'w \<Rightarrow> 'w \<times> (error + 'r)" where
  "editFileTree a file cb w =
     (case readLines a file w of
        Inl e \<Rightarrow> (w, Inl e)
      | Inr lines \<Rightarrow>
          (case cb (parse a lines) of
             Inl e \<Rightarrow> (w, Inl e)
           | Inr (tree, r) \<Rightarrow>
               (case writeLines a file (stringifyTree a tree) w of
                  Inl e \<Rightarrow> (w, Inl e)
                | Inr w' \<Rightarrow> (w', Inr r))))"

definition extractTasksFromActiveFile ::
    "'w archiver \<Rightarrow> activeFile \<Rightarrow> blockExtractor \<Rightarrow> 'w \<Rightarrow> 'w \<times> (error + block list)" where
  "extractTasksFromActiveFile a file extractor w =
     editFileTree a file
       (\<lambda>root. case extractBlocksRecursively root (taskFilter a) extractor of
                 (tasks, root') \<Rightarrow> Inr (root', tasks)) w"

definition getOrCreateFile :: "'w archiver \<Rightarrow> string \<Rightarrow> 'w \<Rightarrow> 'w \<times> (error + string)" where
  "getOrCreateFile a path w =
     (case getAbstractFileByPath a path w of
        Some (TFile tFile) \<Rightarrow> (w, Inr tFile)
      | Some (TFolder _) \<Rightarrow> (w, Inl (Error (path @ '' is not a valid markdown file'')))
      | None \<Rightarrow>
          (let pathNodes = splitString CHR ''/'' path;
               folderPath = joinStrings ''/'' (butlast pathNodes)
           in case (if length pathNodes > 1 \<and> getAbstractFileByPath a folderPath w = None
                    then createFolder a folderPath w else Inr w) of
                Inl e \<Rightarrow> (w, Inl e)
              | Inr w1 \<Rightarrow>
                  (case create a path [] w1 of
                     Inl e \<Rightarrow> (w1, Inl e)
                   | Inr w2 \<Rightarrow> (w2, Inr path))))"

definition getDiskFile :: "'w archiver \<Rightarrow> string \<Rightarrow> 'w \<Rightarrow> 'w \<times> (error + activeFile)" where
  "getDiskFile a path w =
     (case getOrCreateFile a (path @ ''.md'') w of
        (w', Inl e) \<Rightarrow> (w', Inl e)
      | (w', Inr tFile) \<Rightarrow> (w', Inr (DiskFile tFile)))"

definition getDiskFileByPathWithPlaceholders ::
    "'w archiver \<Rightarrow> string \<Rightarrow> 'w \<Rightarrow> 'w \<times> (error + activeFile)" where
  "getDiskFileByPathWithPlaceholders a path w =
     getDiskFile a (resolve a path (settings.dateFormat (settings a))) w"

definition getArchiveFile :: "'w archiver \<Rightarrow> activeFile \<Rightarrow> 'w \<Rightarrow> 'w \<times> (error + activeFile)" where
  "getArchiveFile a activeFile w =
     (if \<not> settings.archiveToSeparateFile (settings a) then (w, Inr activeFile)
      else getDiskFileByPathWithPlaceholders a (settings.defaultArchiveFileName (settings a)) w)"

definition buildArchiveSection :: "'w archiver \<Rightarrow> section" where
  "buildArchiveSection a =
     Section ('' '' @ archiveHeading (settings a)) (archiveHeadingDepth (settings a)) RootBlock []"

text \<open>
  \<open>getArchiveSectionFromRoot\<close> returns a Section of the tree it is given, which its
  callers then change in place: the model returns the tree, with the new Section when
  one is appended, and the reference to the archive Section in it.
\<close>

definition getArchiveSectionFromRoot :: "'w archiver \<Rightarrow> section \<Rightarrow> section \<times> nat list" where
  "getArchiveSectionFromRoot a section =
     (let shouldArchiveToRoot = \<not> archiveUnderHeading (settings a)
      in if settings.archiveToSeparateFile (settings a) \<and> shouldArchiveToRoot then (section, [])
         else (case findSectionRecursively section
                      (\<lambda>section. archiveHeadingPattern a (sectionText section)) of
                 Some existingArchiveSection \<Rightarrow> (section, existingArchiveSection)
               | None \<Rightarrow>
                   (let section1 = (if addNewlinesAroundHeadings (settings a)
                                    then addNewlinesToSection a section else section)
                    in (appendChild section1 (buildArchiveSection a),
                        [length (sectionChildren section1)]))))"

definition archiveBlocksToRoot :: "'w archiver \<Rightarrow> block list \<Rightarrow> section \<Rightarrow> section" where
  "archiveBlocksToRoot a tasks root =
     (case getArchiveSectionFromRoot a root of
        (root', archiveSection) \<Rightarrow>
          updateAt archiveSection
            (\<lambda>s. Section (sectionText s) (tokenLevel s)
                   (mergeNewBlocksWithDateTree a (blockContent s) tasks) (sectionChildren s))
            root')"

text \<open>
  The steps of the \<open>flow\<close> in \<open>archiveTasks\<close> up to \<open>toPairs\<close>. The object with the
  fields \<open>task\<close> and \<open>archivePath\<close> is a pair. Every \<open>BlockWithRule\<close> carries a rule.
\<close>

definition withArchivePath :: "'w archiver \<Rightarrow> blockWithRule \<Rightarrow> block \<times> string" where
  "withArchivePath a x =
     (task x,
      if rule.archiveToSeparateFile (rule x)
      then resolve a (rule.defaultArchiveFileName (rule x)) (rule.dateFormat (rule x))
      else ''current-file'')"

definition tasksByArchivePath ::
    "'w archiver \<Rightarrow> blockWithRule list \<Rightarrow> (string \<times> block list) list" where
  "tasksByArchivePath a tasks =
     toPairs (mapValues (map fst) (groupBy snd
       (map (withArchivePath a)
          (map (appendMetadata a)
             (map (\<lambda>x. \<lparr> task = replaceText a (task x), rule = rule x \<rparr>) tasks)))))"

text \<open>The asynchronous callback that \<open>archiveTasks\<close> maps over the pairs.\<close>

definition archiveToPath ::
    "'w archiver \<Rightarrow> activeFile \<Rightarrow> string \<times> block list \<Rightarrow> 'w \<Rightarrow> 'w \<times> (error + unit)" where
  "archiveToPath a activeFile pair w =
     (case (if fst pair = ''current-file'' then (w, Inr activeFile)
            else getDiskFile a (fst pair) w) of
        (w1, Inl e) \<Rightarrow> (w1, Inl e)
      | (w1, Inr archiveFile) \<Rightarrow>
          editFileTree a archiveFile
            (\<lambda>tree. Inr (archiveBlocksToRoot a (snd pair) tree, ())) w1)"

text \<open>
  \<open>map\<close> calls the asynchronous callback for every pair, so the work for every
  destination is started, and \<open>Promise.all\<close> awaits the promises; a promise that is
  rejected cancels none of the others. The steps of the callbacks interleave where they
  await. The model runs them one after the other in the order of the pairs, which leaves
  the same state whenever they work on different files, and collects the errors.
\<close>

fun promiseAll :: "('w \<Rightarrow> 'w \<times> (error + unit)) list \<Rightarrow> 'w \<Rightarrow> 'w \<times> error list" where
  "promiseAll [] w = (w, [])"
| "promiseAll (p # ps) w =
     (case p w of
        (w1, r) \<Rightarrow>
          (case promiseAll ps w1 of
             (w2, es) \<Rightarrow> (w2, (case r of Inl e \<Rightarrow> [e] | Inr _ \<Rightarrow> []) @ es)))"

definition archiveTasks ::
    "'w archiver \<Rightarrow> blockWithRule list \<Rightarrow> activeFile \<Rightarrow> 'w \<Rightarrow> 'w \<times> (error + unit)" where
  "archiveTasks a tasks activeFile w =
     (case promiseAll (map (archiveToPath a activeFile) (tasksByArchivePath a tasks)) w of
        (w', []) \<Rightarrow> (w', Inr ())
      | (w', e # _) \<Rightarrow> (w', Inl e))"

definition extractAndArchiveTasksInActiveFile ::
    "'w archiver \<Rightarrow> activeFile \<Rightarrow> blockExtractor \<Rightarrow> 'w \<Rightarrow> 'w \<times> (error + string)" where
  "extractAndArchiveTasksInActiveFile a activeFile extractor w =
     (case extractTasksFromActiveFile a activeFile extractor w of
        (w1, Inl e) \<Rightarrow> (w1, Inl e)
      | (w1, Inr extracted) \<Rightarrow>
          (case tasksWithRules a extracted of
             Inl e \<Rightarrow> (w1, Inl e)
           | Inr tasks \<Rightarrow>
               (case archiveTasks a tasks activeFile w1 of
                  (w2, Inl e) \<Rightarrow> (w2, Inl e)
                | (w2, Inr _) \<Rightarrow>
                    (w2, Inr (if tasks = [] then ''No tasks to archive''
                              else ''Archived '' @ numberToString (length tasks) @ '' tasks'')))))"

definition archiveShallowTasksInActiveFile ::
    "'w archiver \<Rightarrow> activeFile \<Rightarrow> 'w \<Rightarrow> 'w \<times> (error + string)" where
  "archiveShallowTasksInActiveFile a file w =
     extractAndArchiveTasksInActiveFile a file shallowExtractBlocks w"

definition archiveDeepTasksInActiveFile ::
    "'w archiver \<Rightarrow> activeFile \<Rightarrow> 'w \<Rightarrow> 'w \<times> (error + string)" where
  "archiveDeepTasksInActiveFile a file w =
     extractAndArchiveTasksInActiveFile a file deepExtractBlocks w"

definition deleteTasksInActiveFile ::
    "'w archiver \<Rightarrow> activeFile \<Rightarrow> 'w \<Rightarrow> 'w \<times> (error + string)" where
  "deleteTasksInActiveFile a file w =
     (case extractTasksFromActiveFile a file shallowExtractBlocks w of
        (w1, Inl e) \<Rightarrow> (w1, Inl e)
      | (w1, Inr tasks) \<Rightarrow>
          (w1, Inr (if tasks = [] then ''No tasks to delete''
                    else ''Deleted '' @ numberToString (length tasks) @ '' tasks'')))"



text \<open>
  \<open>archiveSection\<close> is given the first child of the parsed lines, which is \<open>undefined\<close>
  (\<open>None\<close>) when there is none; calling a method of it then throws a \<open>TypeError\<close>.
  \<open>appendToArchiveSection\<close> is the callback that it hands to \<open>editFileTree\<close>.
\<close>

definition appendToArchiveSection :: "'w archiver \<Rightarrow> section \<Rightarrow> section \<Rightarrow> section" where
  "appendToArchiveSection a moved tree =
     (case getArchiveSectionFromRoot a tree of
        (tree', archiveSection) \<Rightarrow>
          updateAt archiveSection
            (\<lambda>s. appendChild s (recalculateTokenLevels moved (tokenLevel s + 1))) tree')"

definition archiveSection ::
    "'w archiver \<Rightarrow> activeFile \<Rightarrow> section option \<Rightarrow> 'w \<Rightarrow> 'w \<times> (error + unit)" where
  "archiveSection a activeFile section w =
     (case getArchiveFile a activeFile w of
        (w1, Inl e) \<Rightarrow> (w1, Inl e)
      | (w1, Inr archiveFile) \<Rightarrow>
          editFileTree a archiveFile
            (\<lambda>tree. case section of
                      None \<Rightarrow> Inl TypeError
                    | Some moved \<Rightarrow> Inr (appendToArchiveSection a moved tree, ())) w1)"


section \<open>Test doubles\<close>

text \<open>
  Collaborators for running the Archiver on concrete documents. The state holds the lines
  in the editor, the files of the vault with their lines, and its folders. The parser
  reads a line that starts with \<open>#\<close> as a heading under the root, any other line as a
  block of the last heading, and a line that starts with a blank as a child of the block
  before it; the tree is written back the same way. Templates hold no date tokens, new
  blocks are appended to the archive as they are.
\<close>

record testWorld =
  editorLines :: "string list"
  vaultFiles :: "(string \<times> string list) list"
  vaultFolders :: "string list"

fun addBlockLine :: "string \<Rightarrow> section \<Rightarrow> section" where
  "addBlockLine line (Section t l (Block bt bs) cs) =
     (if bs \<noteq> [] \<and> take 1 line = '' '' then
        Section t l
          (Block bt (butlast bs @
             [Block (blockText (last bs)) (blockChildren (last bs) @ [Block line []])])) cs
      else Section t l (Block bt (bs @ [Block line []])) cs)"

fun addLine :: "section \<Rightarrow> string \<Rightarrow> section" where
  "addLine (Section t l bc cs) line =
     (if take 1 line = ''#'' then
        Section t l bc
          (cs @ [Section (dropWhile (\<lambda>c. c = CHR ''#'') line)
                   (int (length (takeWhile (\<lambda>c. c = CHR ''#'') line))) RootBlock []])
      else if cs = [] then addBlockLine line (Section t l bc cs)
      else Section t l bc (butlast cs @ [addBlockLine line (last cs)]))"

definition testParse :: "string list \<Rightarrow> section" where
  "testParse lines = foldl addLine (Section [] 0 RootBlock []) lines"

fun blockLines :: "block \<Rightarrow> string list" where
  "blockLines (Block t cs) = t # concat (map blockLines cs)"

fun sectionLines :: "section \<Rightarrow> string list" where
  "sectionLines (Section t l bc cs) =
     (if l = 0 then [] else [replicate (nat l) CHR ''#'' @ t]) @
     concat (map blockLines (blockChildren bc)) @ concat (map sectionLines cs)"

fun testReadLines :: "activeFile \<Rightarrow> testWorld \<Rightarrow> error + string list" where
  "testReadLines EditorFile w = Inr (editorLines w)"
| "testReadLines (DiskFile p) w =
     (case map_of (vaultFiles w) p of
        None \<Rightarrow> Inl (Rejected p)
      | Some lines \<Rightarrow> Inr lines)"

fun testWriteLines :: "activeFile \<Rightarrow> string list \<Rightarrow> testWorld \<Rightarrow> error + testWorld" where
  "testWriteLines EditorFile lines w = Inr (w\<lparr>editorLines := lines\<rparr>)"
| "testWriteLines (DiskFile p) lines w =
     Inr (w\<lparr>vaultFiles := (p, lines) # filter (\<lambda>kv. fst kv \<noteq> p) (vaultFiles w)\<rparr>)"

definition testGetAbstractFileByPath :: "string \<Rightarrow> testWorld \<Rightarrow> abstractFile option" where
  "testGetAbstractFileByPath p w =
     (if p \<in> set (map fst (vaultFiles w)) then Some (TFile p)
      else if p \<in> set (vaultFolders w) then Some (TFolder p)
      else None)"

definition testArchiver :: "settings \<Rightarrow> (string \<Rightarrow> bool) \<Rightarrow> testWorld archiver" where
  "testArchiver s tester =
     \<lparr> settings = s,
       archiveHeadingPattern = buildHeadingPattern (archiveHeading s),
       parse = testParse,
       stringify = (\<lambda>tree indentation. sectionLines tree),
       buildIndentation = (\<lambda>s. ''  ''),
       doesTaskNeedArchiving = tester,
       resolve = (\<lambda>template format. template),
       replaceText = (\<lambda>b. b),
       appendMetadata = (\<lambda>x. x),
       mergeNewBlocksWithDateTree = (\<lambda>root bs. Block (blockText root) (blockChildren root @ bs)),
       addNewlinesToSection = (\<lambda>section. section),
       readLines = testReadLines,
       writeLines = testWriteLines,
       getAbstractFileByPath = testGetAbstractFileByPath,
       createFolder = (\<lambda>p w. Inr (w\<lparr>vaultFolders := p # vaultFolders w\<rparr>)),
       create = (\<lambda>p d w. Inr (w\<lparr>vaultFiles := vaultFiles w @ [(p, [])]\<rparr>)),
       detectListItemUnderCursor = (\<lambda>w. Some ((0, 0), (1, 0))),
       detectHeadingUnderCursor = (\<lambda>w. Some ((0, 0), (1, 0))),
       getRange = (\<lambda>r w. hd (editorLines w)),
       replaceRange = (\<lambda>t r w. w\<lparr>editorLines := tl (editorLines w)\<rparr>),
       setCursor = (\<lambda>p w. w) \<rparr>"

definition testSettings :: "rule list \<Rightarrow> settings" where
  "testSettings rs =
     \<lparr> settings.archiveToSeparateFile = False,
       settings.defaultArchiveFileName = ''archive'',
       settings.dateFormat = ''YYYY-MM-DD'',
       archiveUnderHeading = True,
       archiveHeading = ''Archive'',
       archiveHeadingDepth = 4,
       addNewlinesAroundHeadings = False,
       additionalMetadataBeforeArchiving =
         \<lparr> additionalMetadataBeforeArchiving.dateFormat = ''YYYY-MM-DD'' \<rparr>,
       rules = rs \<rparr>"

text \<open>The archiving predicate "the status is \<open>x\<close>".\<close>

definition statusIsX :: "string \<Rightarrow> bool" where
  "statusIsX line = (matchStatus line = Some CHR ''x'')"

text \<open>The archiving predicate "the task is not open".\<close>

definition notOpen :: "string \<Rightarrow> bool" where
  "notOpen line = (matchStatus line \<noteq> Some CHR '' '')"

definition ruleX :: rule where
  "ruleX =
     \<lparr> statuses = ''x'', rule.defaultArchiveFileName = ''done'',
       rule.archiveToSeparateFile = True, rule.dateFormat = ''YYYY'' \<rparr>"

definition worldLog :: testWorld where
  "worldLog =
     \<lparr> editorLines = [''# Log'', ''- [ ] task A'', ''- [x] task B''],
       vaultFiles = [], vaultFolders = [] \<rparr>"

definition worldNote :: testWorld where
  "worldNote =
     \<lparr> editorLines = [''- [ ] task A'', ''- note''], vaultFiles = [], vaultFolders = [] \<rparr>"


definition ruleSentinel :: rule where
  "ruleSentinel =
     \<lparr> statuses = ''-'', rule.defaultArchiveFileName = ''current-file'',
       rule.archiveToSeparateFile = True, rule.dateFormat = ''YYYY'' \<rparr>"

definition worldNested :: testWorld where
  "worldNested =
     \<lparr> editorLines = [''- [ ] parent'', ''  - [x] child''], vaultFiles = [], vaultFolders = [] \<rparr>"

definition worldTwoStatuses :: testWorld where
  "worldTwoStatuses =
     \<lparr> editorLines = [''- [x] task B'', ''- [-] task C''], vaultFiles = [],
       vaultFolders = [''done.md''] \<rparr>"




section \<open>Selecting the rule of a task\<close>

lemma findRule_no_marker:
  "matchStatus (blockText t) = None \<Longrightarrow> rs \<noteq> [] \<Longrightarrow> findRule rs t = Inl TypeError"
  by (cases rs) (simp_all add: getTaskStatus_def)


lemma findRule_error: "findRule rs t = Inl e \<Longrightarrow> e = TypeError"
  by (induction rs) (auto simp: getTaskStatus_def split: option.splits if_splits)

lemma taskWithRule_error: "taskWithRule a t = Inl e \<Longrightarrow> e = TypeError"
  by (auto simp: taskWithRule_def split: sum.splits option.splits dest: findRule_error)

lemma tasksWithRules_fails:
  "t \<in> set ts \<Longrightarrow> taskWithRule a t = Inl TypeError \<Longrightarrow> tasksWithRules a ts = Inl TypeError"
proof (induction ts)
  case Nil
  then show ?case by simp
next
  case (Cons u us)
  show ?case
  proof (cases "taskWithRule a u")
    case (Inl e)
    then show ?thesis by (simp add: taskWithRule_error)
  next
    case (Inr x)
    with Cons have "tasksWithRules a us = Inl TypeError" by auto
    with Inr show ?thesis by simp
  qed
qed


text \<open>
  Claim C1. The spec says that an extracted task whose text holds no status marker
  \<open>[c]\<close> falls back to the default rule and is never fatal. In the code
  \<open>getTaskStatus\<close> destructures the \<open>null\<close> that \<open>match\<close> returns: as soon as one rule
  is configured, the batched operation fails with a \<open>TypeError\<close>, after the extraction
  has written the source back without the extracted tasks and before anything is
  archived.
\<close>

theorem missing_status_marker_is_fatal:
  assumes "extractTasksFromActiveFile a file extractor w = (w1, Inr extracted)"
    and "t \<in> set extracted"
    and "matchStatus (blockText t) = None"
    and "rules (settings a) \<noteq> []"
  shows "extractAndArchiveTasksInActiveFile a file extractor w = (w1, Inl TypeError)"
proof -
  have "taskWithRule a t = Inl TypeError"
    using assms(3,4) by (simp add: taskWithRule_def findRule_no_marker)
  with assms(2) have "tasksWithRules a extracted = Inl TypeError"
    by (rule tasksWithRules_fails)
  with assms(1) show ?thesis
    by (simp add: extractAndArchiveTasksInActiveFile_def)
qed

theorem missing_status_marker_is_fatal_witness:
  "archiveShallowTasksInActiveFile (testArchiver (testSettings [ruleX]) notOpen) EditorFile
     worldNote =
   (\<lparr> editorLines = [''- [ ] task A''], vaultFiles = [], vaultFolders = [] \<rparr>, Inl TypeError)"
proof -
  let ?a = "testArchiver (testSettings [ruleX]) notOpen"
  have 1: "extractTasksFromActiveFile ?a EditorFile shallowExtractBlocks worldNote =
      (\<lparr> editorLines = [''- [ ] task A''], vaultFiles = [], vaultFolders = [] \<rparr>,
       Inr [Block ''- note'' []])"
    by code_simp
  have 2: "Block ''- note'' [] \<in> set [Block ''- note'' []]" by simp
  have 3: "matchStatus (blockText (Block ''- note'' [])) = None" by code_simp
  have 4: "rules (settings ?a) \<noteq> []" by (simp add: testArchiver_def testSettings_def)
  show ?thesis
    unfolding archiveShallowTasksInActiveFile_def
    by (rule missing_status_marker_is_fatal [OF 1 2 3 4])
qed



section \<open>The report of a batched operation\<close>







section \<open>Deleting tasks\<close>

text \<open>
  Claim C3, as the code has it. \<open>deleteTasksInActiveFile\<close> takes no extraction mode: it
  always extracts with \<open>shallowExtractBlocks\<close>, which is the extraction of
  \<open>archiveShallowTasksInActiveFile\<close>. When the active file is read as \<open>lines\<close>, the
  state it leaves is the one write of the tree without the extracted blocks to that
  file, nothing else is written, and it returns "Deleted N tasks" for \<open>N > 0\<close> blocks
  ("No tasks to delete" for none).
\<close>

theorem delete_extracts_shallow:
  assumes "readLines a file w = Inr lines"
    and "extractBlocksRecursively (parse a lines) (taskFilter a) shallowExtractBlocks =
           (tasks, root')"
    and "writeLines a file (stringifyTree a root') w = Inr w'"
  shows "deleteTasksInActiveFile a file w =
           (w', Inr (if tasks = [] then ''No tasks to delete''
                     else ''Deleted '' @ numberToString (length tasks) @ '' tasks'')) \<and>
         extractTasksFromActiveFile a file shallowExtractBlocks w = (w', Inr tasks)"
  using assms
  by (simp add: deleteTasksInActiveFile_def extractTasksFromActiveFile_def editFileTree_def)

theorem delete_extracts_shallow_witness:
  "deleteTasksInActiveFile (testArchiver (testSettings []) statusIsX) EditorFile worldLog =
     (\<lparr> editorLines = [''# Log'', ''- [ ] task A''], vaultFiles = [], vaultFolders = [] \<rparr>,
      Inr ''Deleted 1 tasks'')"
proof -
  let ?a = "testArchiver (testSettings []) statusIsX"
  let ?root = "Section [] 0 (Block [] [])
                 [Section '' Log'' 1 (Block [] [Block ''- [ ] task A'' []]) []]"
  let ?w = "\<lparr> editorLines = [''# Log'', ''- [ ] task A''], vaultFiles = [], vaultFolders = [] \<rparr>"
  have 1: "readLines ?a EditorFile worldLog = Inr [''# Log'', ''- [ ] task A'', ''- [x] task B'']"
    by code_simp
  have 2: "extractBlocksRecursively (parse ?a [''# Log'', ''- [ ] task A'', ''- [x] task B''])
      (taskFilter ?a) shallowExtractBlocks = ([Block ''- [x] task B'' []], ?root)"
    by code_simp
  have 3: "writeLines ?a EditorFile (stringifyTree ?a ?root) worldLog = Inr ?w"
    by code_simp
  have n: "numberToString (length [Block ''- [x] task B'' []]) = ''1''"
    by code_simp
  from delete_extracts_shallow [OF 1 2 3] n show ?thesis by simp
qed

text \<open>
  Claim C3, as the spec states it, fails for the deep mode: a completed task under an open
  one is extracted by the deep archive operation and is left in place by
  \<open>deleteTasksInActiveFile\<close>.
\<close>

theorem delete_ignores_mode_counterexample:
  "deleteTasksInActiveFile (testArchiver (testSettings []) statusIsX) EditorFile worldNested =
     (worldNested, Inr ''No tasks to delete'') \<and>
   extractTasksFromActiveFile (testArchiver (testSettings []) statusIsX) EditorFile
       deepExtractBlocks worldNested =
     (\<lparr> editorLines = [''- [ ] parent''], vaultFiles = [], vaultFolders = [] \<rparr>,
      Inr [Block ''  - [x] child'' []]) \<and>
   archiveDeepTasksInActiveFile (testArchiver (testSettings []) statusIsX) EditorFile worldNested =
     (\<lparr> editorLines = [''- [ ] parent'', ''#### Archive'', ''  - [x] child''],
        vaultFiles = [], vaultFolders = [] \<rparr>, Inr ''Archived 1 tasks'')"
  by code_simp

section \<open>Destinations\<close>

lemma addToGroup_map_of:
  "map_of (addToGroup k v obj) k' =
     (if k' = k then Some ((case map_of obj k of None \<Rightarrow> [] | Some vs \<Rightarrow> vs) @ [v])
      else map_of obj k')"
  by (induction obj) auto

lemma addToGroup_keys:
  "set (map fst (addToGroup k v obj)) = insert k (set (map fst obj))"
proof (induction obj)
  case Nil
  then show ?case by simp
next
  case (Cons kv obj)
  obtain k' vs where kv: "kv = (k', vs)" by (cases kv)
  show ?case
  proof (cases "k = k'")
    case True
    with kv show ?thesis by auto
  next
    case False
    with kv Cons.IH show ?thesis by (simp add: insert_commute)
  qed
qed

lemma addToGroup_distinct:
  "distinct (map fst obj) \<Longrightarrow> distinct (map fst (addToGroup k v obj))"
proof (induction obj)
  case Nil
  then show ?case by simp
next
  case (Cons kv obj)
  obtain k' vs where kv: "kv = (k', vs)" by (cases kv)
  show ?case
  proof (cases "k = k'")
    case True
    with Cons.prems kv show ?thesis by simp
  next
    case False
    from Cons have d: "distinct (map fst (addToGroup k v obj))" by simp
    from Cons.prems kv have "k' \<notin> set (map fst obj)" by simp
    with False have "k' \<notin> set (map fst (addToGroup k v obj))"
      by (simp only: addToGroup_keys) simp
    with d kv False show ?thesis by simp
  qed
qed

lemma foldl_addToGroup_distinct:
  "distinct (map fst obj) \<Longrightarrow>
   distinct (map fst (foldl (\<lambda>obj x. addToGroup (key x) x obj) obj xs))"
  by (induction xs arbitrary: obj) (simp_all add: addToGroup_distinct)

lemma foldl_addToGroup_map_of:
  "map_of (foldl (\<lambda>obj x. addToGroup (key x) x obj) obj xs) k =
     (if map_of obj k = None \<and> filter (\<lambda>x. key x = k) xs = [] then None
      else Some ((case map_of obj k of None \<Rightarrow> [] | Some vs \<Rightarrow> vs) @
                 filter (\<lambda>x. key x = k) xs))"
proof (induction xs arbitrary: obj)
  case Nil
  then show ?case by (auto split: option.splits)
next
  case (Cons x xs)
  show ?case
    by (simp add: Cons.IH addToGroup_map_of split: option.splits)
qed

lemma groupBy_map_of:
  "map_of (groupBy key xs) k =
     (if filter (\<lambda>x. key x = k) xs = [] then None else Some (filter (\<lambda>x. key x = k) xs))"
  by (simp add: groupBy_def foldl_addToGroup_map_of)

lemma groupBy_distinct: "distinct (map fst (groupBy key xs))"
  by (simp add: groupBy_def foldl_addToGroup_distinct)

lemma ownProperties_set: "set (ownProperties obj) = set obj"
  by (auto simp: ownProperties_def)

lemma ownProperties_distinct:
  assumes "distinct (map fst obj)"
  shows "distinct (map fst (ownProperties obj))"
proof -
  from assms have d: "distinct obj" and i: "inj_on fst (set obj)"
    by (simp_all add: distinct_map)
  have "distinct (ownProperties obj)"
    using d by (auto simp: ownProperties_def)
  with i show ?thesis by (simp add: distinct_map ownProperties_set)
qed

lemma ownProperties_map_of:
  assumes "distinct (map fst obj)"
  shows "map_of (ownProperties obj) = map_of obj"
  using assms ownProperties_distinct [OF assms]
  by (simp add: map_of_inject_set ownProperties_set)

lemma map_of_map_values:
  "map_of (map (\<lambda>kv. (fst kv, f (snd kv))) l) k = map_option f (map_of l k)"
  by (induction l) auto

lemma mapValues_map_of:
  assumes "distinct (map fst obj)"
  shows "map_of (mapValues f obj) k = map_option f (map_of obj k)"
proof -
  have "map_of (map (\<lambda>kv. (fst kv, f (snd kv))) (ownProperties obj)) k =
      map_option f (map_of (ownProperties obj) k)"
    by (rule map_of_map_values)
  then show ?thesis by (simp add: mapValues_def ownProperties_map_of [OF assms])
qed

lemma mapValues_distinct:
  assumes "distinct (map fst obj)"
  shows "distinct (map fst (mapValues f obj))"
proof -
  have "map fst (mapValues f obj) = map fst (ownProperties obj)"
    by (simp add: mapValues_def comp_def)
  with ownProperties_distinct [OF assms] show ?thesis by simp
qed

lemma tasksByArchivePath_distinct: "distinct (map fst (tasksByArchivePath a tasks))"
  by (simp add: tasksByArchivePath_def toPairs_def ownProperties_distinct mapValues_distinct
      groupBy_distinct)

lemma tasksByArchivePath_map_of:
  "map_of (tasksByArchivePath a tasks) k =
     (let here = filter (\<lambda>x. snd (withArchivePath a x) = k)
                   (map (\<lambda>x. appendMetadata a \<lparr> task = replaceText a (task x), rule = rule x \<rparr>)
                      tasks)
      in if here = [] then None else Some (map task here))"
proof -
  let ?xs = "map (\<lambda>x. appendMetadata a \<lparr> task = replaceText a (task x), rule = rule x \<rparr>) tasks"
  have f: "map fst (filter (\<lambda>p. snd p = k) (map (withArchivePath a) ?xs)) =
      map task (filter (\<lambda>x. snd (withArchivePath a x) = k) ?xs)"
    by (induction tasks) (auto simp: withArchivePath_def)
  have e: "filter (\<lambda>p. snd p = k) (map (withArchivePath a) ?xs) = [] \<longleftrightarrow>
      filter (\<lambda>x. snd (withArchivePath a x) = k) ?xs = []"
    by (induction tasks) auto
  have "map_of (tasksByArchivePath a tasks) k =
      map_option (map fst) (map_of (groupBy snd (map (withArchivePath a) ?xs)) k)"
    by (simp add: tasksByArchivePath_def toPairs_def ownProperties_map_of mapValues_distinct
        groupBy_distinct mapValues_map_of comp_def)
  then show ?thesis
    using f e by (simp add: groupBy_map_of Let_def)
qed

text \<open>
  Claim C10. The archive path of a task whose rule does not archive to a separate file
  is the string "current-file", and so is the path of a task whose rule does and whose
  template resolves to that string. The callback for the path "current-file" edits the
  active file and asks for no disk file. Every destination has one entry, and the entry
  of "current-file" holds all tasks with that path, in their order, whatever rule gave
  it to them.
\<close>

theorem current_file_sentinel:
  "(\<not> rule.archiveToSeparateFile (rule x) \<longrightarrow> snd (withArchivePath a x) = ''current-file'') \<and>
   (rule.archiveToSeparateFile (rule x) \<longrightarrow>
      resolve a (rule.defaultArchiveFileName (rule x)) (rule.dateFormat (rule x)) =
        ''current-file'' \<longrightarrow>
      snd (withArchivePath a x) = ''current-file'') \<and>
   archiveToPath a activeFile (''current-file'', ts) w =
     editFileTree a activeFile (\<lambda>tree. Inr (archiveBlocksToRoot a ts tree, ())) w \<and>
   distinct (map fst (tasksByArchivePath a tasks)) \<and>
   map_of (tasksByArchivePath a tasks) ''current-file'' =
     (let here = filter (\<lambda>x. snd (withArchivePath a x) = ''current-file'')
                   (map (\<lambda>x. appendMetadata a \<lparr> task = replaceText a (task x), rule = rule x \<rparr>)
                      tasks)
      in if here = [] then None else Some (map task here))"
  by (simp add: withArchivePath_def archiveToPath_def tasksByArchivePath_distinct
      tasksByArchivePath_map_of)

theorem current_file_sentinel_witness:
  "snd (withArchivePath (testArchiver (testSettings [ruleSentinel]) notOpen)
          \<lparr> task = Block ''- [x] task B'' [],
            rule = getDefaultRule (testArchiver (testSettings [ruleSentinel]) notOpen) \<rparr>) =
     ''current-file'' \<and>
   snd (withArchivePath (testArchiver (testSettings [ruleSentinel]) notOpen)
          \<lparr> task = Block ''- [-] task C'' [], rule = ruleSentinel \<rparr>) = ''current-file'' \<and>
   map_of (tasksByArchivePath (testArchiver (testSettings [ruleSentinel]) notOpen)
       [\<lparr> task = Block ''- [x] task B'' [],
          rule = getDefaultRule (testArchiver (testSettings [ruleSentinel]) notOpen) \<rparr>,
        \<lparr> task = Block ''- [-] task C'' [], rule = ruleSentinel \<rparr>]) ''current-file'' =
     Some [Block ''- [x] task B'' [], Block ''- [-] task C'' []] \<and>
   archiveShallowTasksInActiveFile (testArchiver (testSettings [ruleSentinel]) notOpen)
       EditorFile worldTwoStatuses =
     (\<lparr> editorLines = [''#### Archive'', ''- [x] task B'', ''- [-] task C''],
        vaultFiles = [], vaultFolders = [''done.md''] \<rparr>, Inr ''Archived 2 tasks'')"
proof -
  let ?a = "testArchiver (testSettings [ruleSentinel]) notOpen"
  let ?x = "\<lparr> task = Block ''- [x] task B'' [], rule = getDefaultRule ?a \<rparr>"
  let ?y = "\<lparr> task = Block ''- [-] task C'' [], rule = ruleSentinel \<rparr>"
  have x: "\<not> rule.archiveToSeparateFile (rule ?x)"
    by (simp add: getDefaultRule_def testArchiver_def testSettings_def)
  have y: "rule.archiveToSeparateFile (rule ?y)"
    by (simp add: ruleSentinel_def)
  have r: "resolve ?a (rule.defaultArchiveFileName (rule ?y)) (rule.dateFormat (rule ?y)) =
      ''current-file''"
    by (simp add: ruleSentinel_def testArchiver_def)
  have 1: "snd (withArchivePath ?a ?x) = ''current-file''"
    using current_file_sentinel [of ?x ?a] x by blast
  have 2: "snd (withArchivePath ?a ?y) = ''current-file''"
    using current_file_sentinel [of ?y ?a] y r by blast
  have m: "map (\<lambda>x. appendMetadata ?a \<lparr> task = replaceText ?a (task x), rule = rule x \<rparr>) [?x, ?y] =
      [?x, ?y]"
    by (simp add: testArchiver_def)
  have "map_of (tasksByArchivePath ?a [?x, ?y]) ''current-file'' =
      (let here = filter (\<lambda>x. snd (withArchivePath ?a x) = ''current-file'')
                   (map (\<lambda>x. appendMetadata ?a \<lparr> task = replaceText ?a (task x), rule = rule x \<rparr>)
                      [?x, ?y])
       in if here = [] then None else Some (map task here))"
    using current_file_sentinel [of ?x ?a EditorFile "[]" worldTwoStatuses "[?x, ?y]"] by blast
  then have 3: "map_of (tasksByArchivePath ?a [?x, ?y]) ''current-file'' =
      Some [Block ''- [x] task B'' [], Block ''- [-] task C'' []]"
    unfolding m using 1 2 by simp
  have 4: "archiveShallowTasksInActiveFile ?a EditorFile worldTwoStatuses =
      (\<lparr> editorLines = [''#### Archive'', ''- [x] task B'', ''- [-] task C''],
         vaultFiles = [], vaultFolders = [''done.md''] \<rparr>, Inr ''Archived 2 tasks'')"
    by code_simp
  from 1 2 3 4 show ?thesis by blast
qed





section \<open>The task under the cursor\<close>








section \<open>The archive Section\<close>

lemma find_append_paths:
  "find P (xs @ ys) = (case find P xs of Some x \<Rightarrow> Some x | None \<Rightarrow> find P ys)"
  by (induction xs) auto

lemma find_map_paths: "find P (map f xs) = map_option f (find (\<lambda>x. P (f x)) xs)"
  by (induction xs) auto

lemma childPaths_shape:
  "p \<in> set (childPaths cs i) \<Longrightarrow> \<exists>k q. p = k # q \<and> i \<le> k"
proof (induction cs arbitrary: i)
  case Nil
  then show ?case by simp
next
  case (Cons c cs)
  from Cons.prems consider "p \<in> set (map ((#) i) (sectionPaths c))"
    | "p \<in> set (childPaths cs (Suc i))"
    by auto
  then show ?case
  proof cases
    case 1
    then show ?thesis by auto
  next
    case 2
    then obtain k q where "p = k # q" and "Suc i \<le> k" using Cons.IH by blast
    then show ?thesis by auto
  qed
qed

lemma matchesAt_Cons:
  "matchesAt (Section t l bc cs) m (k # q) = matchesAtChild cs 0 m (k # q)"
  by (simp add: matchesAt_def matchesAtChild_def)

text \<open>The search gives the first reference, in the order of \<open>sectionPaths\<close>, to a Section
  that the matcher accepts.\<close>

lemma find_search:
  "findSectionRecursively s m = find (matchesAt s m) (sectionPaths s)"
  "findInChildren cs i m = find (matchesAtChild cs i m) (childPaths cs i)"
proof (induction s m and cs i m rule: findSectionRecursively_findInChildren.induct)
  case (1 t l bc cs matcher)
  show ?case
  proof (cases "matcher (Section t l bc cs)")
    case True
    then have "matchesAt (Section t l bc cs) matcher []"
      by (simp add: matchesAt_def)
    with True show ?thesis by simp
  next
    case False
    have "find (matchesAt (Section t l bc cs) matcher) (childPaths cs 0) =
        find (matchesAtChild cs 0 matcher) (childPaths cs 0)"
    proof (rule find_cong)
      show "childPaths cs 0 = childPaths cs 0" ..
    next
      fix p assume "p \<in> set (childPaths cs 0)"
      then obtain k q where "p = k # q" using childPaths_shape by blast
      then show "matchesAt (Section t l bc cs) matcher p = matchesAtChild cs 0 matcher p"
        by (simp add: matchesAt_Cons)
    qed
    moreover from False have "\<not> matchesAt (Section t l bc cs) matcher []"
      by (simp add: matchesAt_def)
    ultimately show ?thesis using False 1 by simp
  qed
next
  case (2 i matcher)
  show ?case by simp
next
  case (3 c cs i matcher)
  have a: "find (matchesAtChild (c # cs) i matcher) (map ((#) i) (sectionPaths c)) =
      map_option ((#) i) (find (matchesAt c matcher) (sectionPaths c))"
    by (simp add: find_map_paths matchesAtChild_def)
  have b: "find (matchesAtChild (c # cs) i matcher) (childPaths cs (Suc i)) =
      find (matchesAtChild cs (Suc i) matcher) (childPaths cs (Suc i))"
  proof (rule find_cong)
    show "childPaths cs (Suc i) = childPaths cs (Suc i)" ..
  next
    fix p assume "p \<in> set (childPaths cs (Suc i))"
    then obtain k q where p: "p = k # q" and k: "Suc i \<le> k" using childPaths_shape by blast
    then have "k - i = Suc (k - Suc i)" by simp
    with p k show "matchesAtChild (c # cs) i matcher p = matchesAtChild cs (Suc i) matcher p"
      by (auto simp add: matchesAtChild_def)
  qed
  show ?case
  proof (cases "findSectionRecursively c matcher")
    case None
    with 3(1) have f: "find (matchesAt c matcher) (sectionPaths c) = None" by simp
    from None 3(2) have "findInChildren cs (Suc i) matcher =
        find (matchesAtChild cs (Suc i) matcher) (childPaths cs (Suc i))" by simp
    with None f a b show ?thesis by (simp add: find_append_paths)
  next
    case (Some p)
    with 3(1) have f: "find (matchesAt c matcher) (sectionPaths c) = Some p" by simp
    with Some a show ?thesis by (simp add: find_append_paths)
  qed
qed

text \<open>\<open>sectionPaths\<close> lists the references to the Sections of the tree, and only those.\<close>

lemma sectionPaths_complete:
  "p \<in> set (sectionPaths s) \<longleftrightarrow> sectionAt s p \<noteq> None"
  "p \<in> set (childPaths cs i) \<longleftrightarrow>
     (\<exists>k q. p = k # q \<and> i \<le> k \<and> k - i < length cs \<and> sectionAt (cs ! (k - i)) q \<noteq> None)"
proof (induction s and cs i arbitrary: p and p rule: sectionPaths_childPaths.induct)
  case (1 t l bc cs)
  show ?case
  proof (cases p)
    case Nil
    then show ?thesis by simp
  next
    case (Cons k q)
    with 1 [of p] show ?thesis by auto
  qed
next
  case (2 i)
  show ?case by simp
next
  case (3 c cs i)
  show ?case
  proof (cases p)
    case Nil
    then show ?thesis using 3(2) [of p] by auto
  next
    case (Cons k q)
    have a: "p \<in> set (map ((#) i) (sectionPaths c)) \<longleftrightarrow> k = i \<and> sectionAt c q \<noteq> None"
      using Cons 3(1) [of q] by auto
    have b: "p \<in> set (childPaths cs (Suc i)) \<longleftrightarrow>
        Suc i \<le> k \<and> k - Suc i < length cs \<and> sectionAt (cs ! (k - Suc i)) q \<noteq> None"
      using Cons 3(2) [of p] by auto
    show ?thesis
    proof (cases "k = i")
      case True
      with a b Cons show ?thesis by auto
    next
      case False
      show ?thesis
      proof (cases "i < k")
        case True
        then have "k - i = Suc (k - Suc i)" by simp
        with True False a b Cons show ?thesis by auto
      next
        case f: False
        with False a b Cons show ?thesis by auto
      qed
    qed
  qed
qed




text \<open>
  Claim C5. When the settings archive to a separate file and not under a heading, the
  archive Section is the root of the tree. Otherwise it is the first Section, in the
  order of the recursive search, whose text the archive heading pattern accepts. When
  there is none, a Section with the archive heading of the settings (after the blank
  that follows the heading marker), the heading depth of the settings and an empty block
  content is appended as last child of the root, after \<open>addNewlinesToSection\<close> has run
  on the root when that setting is on.
\<close>

theorem archive_section_location:
  "(settings.archiveToSeparateFile (settings a) \<and> \<not> archiveUnderHeading (settings a) \<longrightarrow>
      getArchiveSectionFromRoot a root = (root, [])) \<and>
   (\<not> (settings.archiveToSeparateFile (settings a) \<and> \<not> archiveUnderHeading (settings a)) \<longrightarrow>
      (let root1 = (if addNewlinesAroundHeadings (settings a) then addNewlinesToSection a root
                    else root);
           new = Section ('' '' @ archiveHeading (settings a)) (archiveHeadingDepth (settings a))
                   RootBlock []
       in case find (matchesAt root (\<lambda>s. archiveHeadingPattern a (sectionText s)))
                 (sectionPaths root) of
            Some p \<Rightarrow> getArchiveSectionFromRoot a root = (root, p)
          | None \<Rightarrow>
              getArchiveSectionFromRoot a root =
                (appendChild root1 new, [length (sectionChildren root1)]) \<and>
              sectionChildren (appendChild root1 new) = sectionChildren root1 @ [new] \<and>
              sectionAt (appendChild root1 new) [length (sectionChildren root1)] = Some new))"
proof -
  have app: "\<And>s c. sectionChildren (appendChild s c) = sectionChildren s @ [c]"
    subgoal for s c by (cases s) simp
    done
  show ?thesis
    by (auto simp: getArchiveSectionFromRoot_def Let_def buildArchiveSection_def
        find_search [symmetric] app split: option.splits)
qed

theorem archive_section_location_witness:
  "getArchiveSectionFromRoot
     (testArchiver ((testSettings [])\<lparr> settings.archiveToSeparateFile := True,
                                       archiveUnderHeading := False \<rparr>) statusIsX)
     (testParse [''# Log'', ''- [ ] task A'']) =
     (testParse [''# Log'', ''- [ ] task A''], []) \<and>
   getArchiveSectionFromRoot (testArchiver (testSettings []) statusIsX)
     (testParse [''# Log'', ''## Archive'', ''# Archive'']) =
     (testParse [''# Log'', ''## Archive'', ''# Archive''], [1]) \<and>
   getArchiveSectionFromRoot (testArchiver (testSettings []) statusIsX)
     (testParse [''# Log'', ''- [ ] task A'']) =
     (Section [] 0 (Block [] [])
        [Section '' Log'' 1 (Block [] [Block ''- [ ] task A'' []]) [],
         Section '' Archive'' 4 (Block [] []) []], [1])"
proof -
  let ?a = "testArchiver (testSettings []) statusIsX"
  let ?b = "testArchiver ((testSettings [])\<lparr> settings.archiveToSeparateFile := True,
                                             archiveUnderHeading := False \<rparr>) statusIsX"
  let ?r1 = "testParse [''# Log'', ''- [ ] task A'']"
  let ?r2 = "testParse [''# Log'', ''## Archive'', ''# Archive'']"
  have cb: "settings.archiveToSeparateFile (settings ?b) \<and> \<not> archiveUnderHeading (settings ?b)"
    by (simp add: testArchiver_def testSettings_def)
  have ca: "\<not> (settings.archiveToSeparateFile (settings ?a) \<and> \<not> archiveUnderHeading (settings ?a))"
    by (simp add: testArchiver_def testSettings_def)
  have f1: "find (matchesAt ?r1 (\<lambda>s. archiveHeadingPattern ?a (sectionText s))) (sectionPaths ?r1) =
      None"
    by code_simp
  have f2: "find (matchesAt ?r2 (\<lambda>s. archiveHeadingPattern ?a (sectionText s))) (sectionPaths ?r2) =
      Some [1]"
    by code_simp
  have n: "\<not> addNewlinesAroundHeadings (settings ?a)"
    by (simp add: testArchiver_def testSettings_def)
  have new: "appendChild ?r1
      (Section ('' '' @ archiveHeading (settings ?a)) (archiveHeadingDepth (settings ?a))
         RootBlock []) =
      Section [] 0 (Block [] [])
        [Section '' Log'' 1 (Block [] [Block ''- [ ] task A'' []]) [],
         Section '' Archive'' 4 (Block [] []) []]"
    by code_simp
  have len: "[length (sectionChildren ?r1)] = [1]"
    by code_simp
  have 1: "getArchiveSectionFromRoot ?b ?r1 = (?r1, [])"
    by (rule archive_section_location [THEN conjunct1, THEN mp, OF cb])
  have 2: "getArchiveSectionFromRoot ?a ?r2 = (?r2, [1])"
    using archive_section_location [of ?a ?r2, THEN conjunct2, THEN mp, OF ca]
    unfolding Let_def f2 by simp
  have 3: "getArchiveSectionFromRoot ?a ?r1 =
      (Section [] 0 (Block [] [])
        [Section '' Log'' 1 (Block [] [Block ''- [ ] task A'' []]) [],
         Section '' Archive'' 4 (Block [] []) []], [1])"
    using archive_section_location [of ?a ?r1, THEN conjunct2, THEN mp, OF ca] n
    unfolding Let_def f1 if_not_P [OF n] new len by simp
  from 1 2 3 show ?thesis by blast
qed

lemma findInChildren_append:
  "findInChildren (cs @ ds) i m =
     (case findInChildren cs i m of
        Some p \<Rightarrow> Some p
      | None \<Rightarrow> findInChildren ds (i + length cs) m)"
  by (induction cs arbitrary: i) (auto split: option.splits)

lemma find_in_appended:
  assumes "P (sectionText c)"
  shows "findSectionRecursively (appendChild s c) (\<lambda>s. P (sectionText s)) \<noteq> None"
proof -
  let ?m = "\<lambda>s. P (sectionText s)"
  obtain t l bc cs where s: "s = Section t l bc cs" by (cases s)
  obtain t' l' bc' cs' where c: "c = Section t' l' bc' cs'" by (cases c)
  from assms c have "findSectionRecursively c ?m = Some []" by simp
  then have "findInChildren [c] (0 + length cs) ?m \<noteq> None" by simp
  then have "findInChildren (cs @ [c]) 0 ?m \<noteq> None"
    by (simp only: findInChildren_append split: option.splits) simp
  with s show ?thesis by simp
qed

lemma find_new_in_appended:
  assumes "P (sectionText c)" and "findSectionRecursively s (\<lambda>s. P (sectionText s)) = None"
  shows "findSectionRecursively (appendChild s c) (\<lambda>s. P (sectionText s)) =
           Some [length (sectionChildren s)]"
proof -
  let ?m = "\<lambda>s. P (sectionText s)"
  obtain t l bc cs where s: "s = Section t l bc cs" by (cases s)
  obtain t' l' bc' cs' where c: "c = Section t' l' bc' cs'" by (cases c)
  from assms(1) c have "findSectionRecursively c ?m = Some []" by simp
  then have 1: "findInChildren [c] (0 + length cs) ?m = Some [length cs]" by simp
  from assms(2) s have 2: "\<not> P t" and 3: "findInChildren cs 0 ?m = None"
    by (auto split: if_splits)
  from 1 3 have "findInChildren (cs @ [c]) 0 ?m = Some [length cs]"
    by (simp only: findInChildren_append option.case)
  with 2 s show ?thesis by simp
qed

lemma buildHeadingPattern_after_blank: "buildHeadingPattern h (CHR '' '' # h)"
proof -
  have "occursAt h (CHR '' '' # h) 1" by (simp add: occursAt_def)
  moreover have "(1::nat) \<in> {0..<Suc (length (CHR '' '' # h))}" by simp
  ultimately show ?thesis
    unfolding buildHeadingPattern_def list_ex_iff set_upt by blast
qed

text \<open>
  Claim C6. For an Archiver built with the default pattern,
  \<open>buildHeadingPattern(settings.archiveHeading)\<close>, the pattern accepts the text of the
  Section that \<open>buildArchiveSection\<close> builds; no clock takes part in either. So when
  \<open>getArchiveSectionFromRoot\<close> runs again on the tree it has returned, it returns that
  tree unchanged, with no second archive Section, and, when no blank lines are added
  around headings, the same archive Section.
\<close>

theorem archive_heading_found_again:
  assumes "archiveHeadingPattern a = buildHeadingPattern (archiveHeading (settings a))"
  shows "archiveHeadingPattern a (sectionText (buildArchiveSection a)) \<and>
         (getArchiveSectionFromRoot a root = (root', p) \<longrightarrow>
            fst (getArchiveSectionFromRoot a root') = root' \<and>
            (\<not> addNewlinesAroundHeadings (settings a) \<longrightarrow>
               getArchiveSectionFromRoot a root' = (root', p)))"
proof -
  let ?m = "\<lambda>s. archiveHeadingPattern a (sectionText s)"
  have new: "?m (buildArchiveSection a)"
    using assms by (simp add: buildArchiveSection_def buildHeadingPattern_after_blank)
  have "fst (getArchiveSectionFromRoot a root') = root' \<and>
        (\<not> addNewlinesAroundHeadings (settings a) \<longrightarrow>
           getArchiveSectionFromRoot a root' = (root', p))"
    if first: "getArchiveSectionFromRoot a root = (root', p)"
  proof (cases "settings.archiveToSeparateFile (settings a) \<and> \<not> archiveUnderHeading (settings a)")
    case True
    with first show ?thesis by (auto simp: getArchiveSectionFromRoot_def)
  next
    case False
    show ?thesis
    proof (cases "findSectionRecursively root ?m")
      case (Some q)
      with False first show ?thesis by (auto simp: getArchiveSectionFromRoot_def)
    next
      case None
      let ?root1 = "if addNewlinesAroundHeadings (settings a) then addNewlinesToSection a root
                    else root"
      from False None first have r: "root' = appendChild ?root1 (buildArchiveSection a)"
        and p: "p = [length (sectionChildren ?root1)]"
        by (auto simp: getArchiveSectionFromRoot_def Let_def)
      from new have "findSectionRecursively (appendChild ?root1 (buildArchiveSection a)) ?m \<noteq> None"
        by (rule find_in_appended [of "archiveHeadingPattern a"])
      with r obtain q where q: "findSectionRecursively root' ?m = Some q" by auto
      with False have a: "fst (getArchiveSectionFromRoot a root') = root'"
        by (auto simp: getArchiveSectionFromRoot_def)
      have b: "getArchiveSectionFromRoot a root' = (root', p)"
        if "\<not> addNewlinesAroundHeadings (settings a)"
      proof -
        from that r p have r': "root' = appendChild root (buildArchiveSection a)"
          and p': "p = [length (sectionChildren root)]" by simp_all
        from find_new_in_appended [of "archiveHeadingPattern a", OF new None] r' p'
        have "findSectionRecursively root' ?m = Some p" by simp
        with False show ?thesis by (auto simp: getArchiveSectionFromRoot_def)
      qed
      from a b show ?thesis by blast
    qed
  qed
  with new show ?thesis by blast
qed

theorem archive_heading_found_again_witness:
  "sectionText (buildArchiveSection (testArchiver (testSettings []) statusIsX)) = '' Archive'' \<and>
   archiveHeadingPattern (testArchiver (testSettings []) statusIsX) '' Archive'' \<and>
   getArchiveSectionFromRoot (testArchiver (testSettings []) statusIsX)
     (Section [] 0 (Block [] [])
        [Section '' Log'' 1 (Block [] [Block ''- [ ] task A'' []]) [],
         Section '' Archive'' 4 (Block [] []) []]) =
     (Section [] 0 (Block [] [])
        [Section '' Log'' 1 (Block [] [Block ''- [ ] task A'' []]) [],
         Section '' Archive'' 4 (Block [] []) []], [1]) \<and>
   archiveShallowTasksInActiveFile (testArchiver (testSettings []) statusIsX) EditorFile
     \<lparr> editorLines = [''# Log'', ''- [x] task A'', ''#### Archive'', ''- [x] task B''],
       vaultFiles = [], vaultFolders = [] \<rparr> =
     (\<lparr> editorLines = [''# Log'', ''#### Archive'', ''- [x] task B'', ''- [x] task A''],
        vaultFiles = [], vaultFolders = [] \<rparr>, Inr ''Archived 1 tasks'')"
proof -
  let ?a = "testArchiver (testSettings []) statusIsX"
  let ?r = "testParse [''# Log'', ''- [ ] task A'']"
  let ?r' = "Section [] 0 (Block [] [])
        [Section '' Log'' 1 (Block [] [Block ''- [ ] task A'' []]) [],
         Section '' Archive'' 4 (Block [] []) []]"
  have h: "archiveHeadingPattern ?a = buildHeadingPattern (archiveHeading (settings ?a))"
    by (simp add: testArchiver_def)
  have t: "sectionText (buildArchiveSection ?a) = '' Archive''"
    by (simp add: buildArchiveSection_def testArchiver_def testSettings_def)
  have first: "getArchiveSectionFromRoot ?a ?r = (?r', [1])"
    by code_simp
  have n: "\<not> addNewlinesAroundHeadings (settings ?a)"
    by (simp add: testArchiver_def testSettings_def)
  note again = archive_heading_found_again [OF h]
  have 1: "archiveHeadingPattern ?a '' Archive''"
    using again [THEN conjunct1] unfolding t .
  have 2: "getArchiveSectionFromRoot ?a ?r' = (?r', [1])"
    by (rule again [THEN conjunct2, THEN mp, OF first, THEN conjunct2, THEN mp, OF n])
  have 3: "archiveShallowTasksInActiveFile ?a EditorFile
     \<lparr> editorLines = [''# Log'', ''- [x] task A'', ''#### Archive'', ''- [x] task B''],
       vaultFiles = [], vaultFolders = [] \<rparr> =
     (\<lparr> editorLines = [''# Log'', ''#### Archive'', ''- [x] task B'', ''- [x] task A''],
        vaultFiles = [], vaultFolders = [] \<rparr>, Inr ''Archived 1 tasks'')"
    by code_simp
  from t 1 2 3 show ?thesis by blast
qed

section \<open>Moving a heading into the archive\<close>






end
